theory Spec2Isabelle
  imports Complex_Main "HOL-Library.Sublist"
begin

section \<open>Data model of the chunked Figma client (src/src/client.ts)\<close>

text \<open>
  Values of the properties of a node that the traversal never inspects (fills, styles,
  colours, ...): plain JSON data.
\<close>

datatype jval =
    JStr string
  | JNum rat
  | JBool bool
  | JArr "jval list"
  | JObj "(string \<times> jval) list"

text \<open>
  A \<open>SceneNode\<close> is a JavaScript object. The fields the client reads are kept apart:
  \<open>id\<close> and \<open>type\<close> are required, \<open>name\<close>, \<open>visible\<close> and \<open>children\<close> are \<open>None\<close>
  when the key is absent from the object (\<open>'children' in node\<close> is \<open>children n \<noteq> None\<close>),
  and every other key of the object is an entry of \<open>props\<close>.
\<close>

datatype SceneNode =
  SceneNode (node_id: string) (node_type: string) (node_name: "string option")
            (visible: "bool option") (children: "SceneNode list option")
            (props: "(string \<times> jval) list")

record DocumentNode =
  doc_children :: "SceneNode list"

text \<open>
  \<open>ChunkConfig\<close>. JavaScript numbers are modelled exactly: the budgets are rationals, the
  page size and the depth limit are integers (the configuration surface of the spec makes
  them so). An optional key is \<open>None\<close> when it is \<open>undefined\<close>.
\<close>

record ChunkConfig =
  pageSize :: int
  maxMemoryMB :: rat
  nodeTypes :: "string list option"
  maxDepth :: "int option"
  excludeProps :: "string list option"
  maxResponseSize :: "rat option"
  summarizeNodes :: "bool option"

record StreamingNodeProcessor =
  processedNodes :: "string set"
  config :: ChunkConfig
  currentSize :: rat

record ChunkResult =
  nodes :: "SceneNode list"
  memoryUsage :: rat
  nextCursor :: "string option"
  hasMore :: bool

text \<open>
  \<open>a || b\<close> on an optional number: \<open>undefined\<close> and \<open>0\<close> are falsy, every other number
  is truthy (NaN is not a value of the model).
\<close>

definition jsOr :: "'a::zero option \<Rightarrow> 'a \<Rightarrow> 'a" where
  "jsOr a b = (case a of None \<Rightarrow> b | Some x \<Rightarrow> if x = 0 then b else x)"

section \<open>StreamingNodeProcessor\<close>

definition newProcessor :: "ChunkConfig \<Rightarrow> StreamingNodeProcessor" where
  "newProcessor cfg = \<lparr>processedNodes = {}, config = cfg, currentSize = 0\<rparr>"

text \<open>
  \<open>estimateNodeSize\<close> is \<open>Buffer.byteLength(JSON.stringify(node)) / 1024 / 1024\<close>. The byte
  length of the serialisation is the parameter \<open>sz\<close> of every function below; dividing a
  byte count by \<open>2^20\<close> and adding such quotients is exact in double precision for any
  document below \<open>2^53\<close> bytes, so the rationals compute what the code computes.
\<close>

definition estimateNodeSize :: "(SceneNode \<Rightarrow> nat) \<Rightarrow> SceneNode \<Rightarrow> rat" where
  "estimateNodeSize sz node = of_nat (sz node) / 1024 / 1024"

text \<open>\<open>delete filteredNode[prop]\<close>.\<close>

definition deleteProp :: "string \<Rightarrow> SceneNode \<Rightarrow> SceneNode" where
  "deleteProp prop node =
     (case node of SceneNode i t n v cs ps \<Rightarrow>
        if prop = ''name'' then SceneNode i t None v cs ps
        else if prop = ''visible'' then SceneNode i t n None cs ps
        else if prop = ''children'' then SceneNode i t n v None ps
        else SceneNode i t n v cs (filter (\<lambda>(k, _). k \<noteq> prop) ps))"

fun filterLoop :: "string list \<Rightarrow> SceneNode \<Rightarrow> SceneNode" where
  "filterLoop [] filteredNode = filteredNode"
| "filterLoop (prop # rest) filteredNode =
     (if prop \<noteq> ''id'' \<and> prop \<noteq> ''type''
      then filterLoop rest (deleteProp prop filteredNode)
      else filterLoop rest filteredNode)"

definition filterNodeProperties :: "ChunkConfig \<Rightarrow> SceneNode \<Rightarrow> SceneNode" where
  "filterNodeProperties cfg node =
     (case excludeProps cfg of
        None \<Rightarrow> node
      | Some [] \<Rightarrow> node
      | Some (p # ps) \<Rightarrow> filterLoop (p # ps) node)"

definition childrenOrEmpty :: "SceneNode \<Rightarrow> SceneNode list" where
  "childrenOrEmpty node = (case children node of Some cs \<Rightarrow> cs | None \<Rightarrow> [])"

definition propOrEmpty :: "string \<Rightarrow> SceneNode \<Rightarrow> jval" where
  "propOrEmpty key node = (case map_of (props node) key of Some v \<Rightarrow> v | None \<Rightarrow> JStr [])"

definition defaultStyle :: jval where
  "defaultStyle = JObj
     [(''fontFamily'', JStr ''Inter''), (''fontWeight'', JNum 400), (''fontSize'', JNum 16),
      (''textAlignHorizontal'', JStr ''LEFT''), (''letterSpacing'', JNum 0),
      (''lineHeightUnit'', JStr ''PIXELS'')]"

definition summarizeNode :: "SceneNode \<Rightarrow> SceneNode" where
  "summarizeNode node =
     (let i = node_id node;
          n = Some (case node_name node of Some s \<Rightarrow> s | None \<Rightarrow> []);
          v = Some (case visible node of Some b \<Rightarrow> b | None \<Rightarrow> True);
          t = node_type node;
          cs = Some (childrenOrEmpty node)
      in if t = ''FRAME'' then SceneNode i ''FRAME'' n v cs [(''background'', JArr [])]
         else if t = ''GROUP'' then SceneNode i ''GROUP'' n v cs []
         else if t = ''VECTOR'' then SceneNode i ''VECTOR'' n v None []
         else if t = ''BOOLEAN_OPERATION'' then
           SceneNode i ''BOOLEAN_OPERATION'' n v cs [(''booleanOperation'', JStr ''UNION'')]
         else if t = ''STAR'' then
           SceneNode i ''STAR'' n v None [(''pointCount'', JNum 5), (''innerRadius'', JNum (1/2))]
         else if t = ''LINE'' then SceneNode i ''LINE'' n v None []
         else if t = ''TEXT'' then
           SceneNode i ''TEXT'' n v None
             [(''characters'', propOrEmpty ''characters'' node), (''style'', defaultStyle)]
         else if t = ''COMPONENT'' then
           SceneNode i ''COMPONENT'' n v cs [(''componentId'', propOrEmpty ''componentId'' node)]
         else if t = ''INSTANCE'' then
           SceneNode i ''INSTANCE'' n v cs [(''componentId'', propOrEmpty ''componentId'' node)]
         else if t = ''CANVAS'' then
           SceneNode i ''CANVAS'' n v cs
             [(''backgroundColor'',
               JObj [(''r'', JNum 1), (''g'', JNum 1), (''b'', JNum 1), (''a'', JNum 1)])]
         else SceneNode i t n v cs [])"

definition shouldProcessNode ::
  "(SceneNode \<Rightarrow> nat) \<Rightarrow> StreamingNodeProcessor \<Rightarrow> SceneNode \<Rightarrow> nat \<Rightarrow> bool" where
  "shouldProcessNode sz p node depth =
     (if node_id node \<in> processedNodes p then False
      else if (case nodeTypes (config p) of
                 Some ts \<Rightarrow> node_type node \<notin> set ts | None \<Rightarrow> False) then False
      else if (case maxDepth (config p) of
                 Some d \<Rightarrow> int depth > d | None \<Rightarrow> False) then False
      else let nodeSize = estimateNodeSize sz node
           in if currentSize p + nodeSize
                   > jsOr (maxResponseSize (config p)) (maxMemoryMB (config p))
              then False else True)"

definition processNode ::
  "(SceneNode \<Rightarrow> nat) \<Rightarrow> StreamingNodeProcessor \<Rightarrow> SceneNode \<Rightarrow> nat
     \<Rightarrow> SceneNode option \<times> StreamingNodeProcessor" where
  "processNode sz p node depth =
     (if \<not> shouldProcessNode sz p node depth then (None, p)
      else let p1 = p\<lparr>processedNodes := insert (node_id node) (processedNodes p)\<rparr>;
               filtered = filterNodeProperties (config p1) node;
               processedNode = (if summarizeNodes (config p1) = Some True
                                then summarizeNode filtered else filtered);
               p2 = p1\<lparr>currentSize := currentSize p1 + estimateNodeSize sz processedNode\<rparr>
           in (Some processedNode, p2))"

definition hasReachedLimit :: "StreamingNodeProcessor \<Rightarrow> bool" where
  "hasReachedLimit p =
     (currentSize p \<ge> jsOr (maxResponseSize (config p)) (maxMemoryMB (config p)))"

definition getCurrentSize :: "StreamingNodeProcessor \<Rightarrow> rat" where
  "getCurrentSize p = currentSize p"

definition getProcessedCount :: "StreamingNodeProcessor \<Rightarrow> nat" where
  "getProcessedCount p = card (processedNodes p)"

section \<open>ChunkedFigmaClient.streamNodes\<close>

fun nodeCount :: "SceneNode \<Rightarrow> nat" where
  "nodeCount (SceneNode i t n v cs ps) =
     Suc (case cs of None \<Rightarrow> 0 | Some l \<Rightarrow> sum_list (map nodeCount l))"

definition queueCount :: "(SceneNode \<times> nat) list \<Rightarrow> nat" where
  "queueCount queue = sum_list (map (\<lambda>e. nodeCount (fst e)) queue)"

text \<open>\<open>queue.unshift(...node.children.map(child => ({node: child, depth: depth + 1})))\<close>,
  guarded by \<open>'children' in node\<close>.\<close>

definition unshiftChildren ::
  "SceneNode \<Rightarrow> nat \<Rightarrow> (SceneNode \<times> nat) list \<Rightarrow> (SceneNode \<times> nat) list" where
  "unshiftChildren node depth queue =
     (case children node of
        Some cs \<Rightarrow> map (\<lambda>child. (child, depth + 1)) cs @ queue
      | None \<Rightarrow> queue)"

text \<open>
  The main loop of \<open>streamNodes\<close>: the queue, the page and the processor are the loop's
  state; the result is the state at the loop's exit.
\<close>

function streamLoop ::
  "(SceneNode \<Rightarrow> nat) \<Rightarrow> int \<Rightarrow> StreamingNodeProcessor \<Rightarrow> (SceneNode \<times> nat) list
     \<Rightarrow> SceneNode list
     \<Rightarrow> SceneNode list \<times> (SceneNode \<times> nat) list \<times> StreamingNodeProcessor" where
  "streamLoop sz ps p [] result = (result, [], p)"
| "streamLoop sz ps p ((node, depth) # queue) result =
     (if int (length result) < ps then
        (let r = processNode sz p node depth;
             result' = (case fst r of Some processedNode \<Rightarrow> result @ [processedNode]
                        | None \<Rightarrow> result);
             queue' = unshiftChildren node depth queue
         in if hasReachedLimit (snd r) then (result', queue', snd r)
            else streamLoop sz ps (snd r) queue' result')
      else (result, (node, depth) # queue, p))"
  by pat_completeness auto
termination
proof (relation "measure (\<lambda>(sz, ps, p, queue, result). queueCount queue)")
  show "wf (measure (\<lambda>(sz, ps, p, queue, result). queueCount queue))"
    by simp
next
  fix sz :: "SceneNode \<Rightarrow> nat" and ps :: int and p :: StreamingNodeProcessor
    and node :: SceneNode and depth :: nat and queue :: "(SceneNode \<times> nat) list"
    and result :: "SceneNode list" and result' :: "SceneNode list"
    and r :: "SceneNode option \<times> StreamingNodeProcessor" and queue'
  assume "queue' = unshiftChildren node depth queue"
  moreover have "queueCount (unshiftChildren node depth queue) < queueCount ((node, depth) # queue)"
    by (cases node) (simp add: queueCount_def unshiftChildren_def comp_def split: option.split)
  ultimately show "((sz, ps, snd r, queue', result'), (sz, ps, p, (node, depth) # queue, result))
      \<in> measure (\<lambda>(sz, ps, p, queue, result). queueCount queue)"
    by simp
qed

declare streamLoop.simps [simp del]

text \<open>
  \<open>parseInt(cursor, 10)\<close>: leading white space is dropped, then an optional sign, then the
  longest prefix of decimal digits is read; with no digit the value is NaN, here \<open>None\<close>.
  A string is its UTF-8 bytes, so the white space of ECMAScript beyond ASCII is a sequence
  of two or three bytes.
\<close>

definition asciiWhiteSpace :: "char \<Rightarrow> bool" where
  "asciiWhiteSpace c = (of_char c \<in> {9, 10, 11, 12, 13, 32 :: nat})"

definition whiteSpace2 :: "string \<Rightarrow> bool" where
  "whiteSpace2 s = (map of_char s = [0xC2, 0xA0 :: nat])"

definition whiteSpace3 :: "string \<Rightarrow> bool" where
  "whiteSpace3 s =
     (case map of_char s of
        [a, b, c] \<Rightarrow>
          (a = (0xE1 :: nat) \<and> b = 0x9A \<and> c = 0x80)
          \<or> (a = 0xE2 \<and> b = 0x80 \<and> (0x80 \<le> c \<and> c \<le> 0x8A \<or> c = 0xA8 \<or> c = 0xA9 \<or> c = 0xAF))
          \<or> (a = 0xE2 \<and> b = 0x81 \<and> c = 0x9F)
          \<or> (a = 0xE3 \<and> b = 0x80 \<and> c = 0x80)
          \<or> (a = 0xEF \<and> b = 0xBB \<and> c = 0xBF)
      | _ \<Rightarrow> False)"

fun trimStart :: "string \<Rightarrow> string" where
  "trimStart [] = []"
| "trimStart (c # cs) =
     (if asciiWhiteSpace c then trimStart cs
      else if whiteSpace2 (take 2 (c # cs)) then trimStart (drop 1 cs)
      else if whiteSpace3 (take 3 (c # cs)) then trimStart (drop 2 cs)
      else c # cs)"

definition isDigit :: "char \<Rightarrow> bool" where
  "isDigit c = (48 \<le> (of_char c :: nat) \<and> (of_char c :: nat) \<le> 57)"

definition digitsValue :: "string \<Rightarrow> nat" where
  "digitsValue z = foldl (\<lambda>acc c. 10 * acc + (of_char c - 48)) 0 z"

definition parseInt :: "string \<Rightarrow> int option" where
  "parseInt str =
     (let s = trimStart str;
          sign = (if s \<noteq> [] \<and> hd s = CHR ''-'' then - 1 else 1 :: int);
          s' = (if s \<noteq> [] \<and> (hd s = CHR ''+'' \<or> hd s = CHR ''-'') then tl s else s);
          z = takeWhile isDigit s'
      in if z = [] then None else Some (sign * int (digitsValue z)))"

text \<open>\<open>Number.prototype.toString\<close> on a count: its decimal digits.\<close>

fun toString :: "nat \<Rightarrow> string" where
  "toString n =
     (if n < 10 then [''0123456789'' ! n]
      else toString (n div 10) @ [''0123456789'' ! (n mod 10)])"

declare toString.simps [simp del]

text \<open>
  The skip loop \<open>while (currentIndex > 0 && queue.length > 0) { queue.shift(); currentIndex--; }\<close>;
  \<open>currentIndex\<close> is \<open>None\<close> when it is NaN, and \<open>NaN > 0\<close> is false.
\<close>

fun skipLoop :: "int option \<Rightarrow> (SceneNode \<times> nat) list \<Rightarrow> (SceneNode \<times> nat) list" where
  "skipLoop None queue = queue"
| "skipLoop (Some currentIndex) [] = []"
| "skipLoop (Some currentIndex) (e # queue) =
     (if currentIndex > 0 then skipLoop (Some (currentIndex - 1)) queue else e # queue)"

record ChunkedFigmaClient =
  clientConfig :: ChunkConfig
  nodeProcessor :: StreamingNodeProcessor

definition streamNodes ::
  "(SceneNode \<Rightarrow> nat) \<Rightarrow> ChunkedFigmaClient \<Rightarrow> DocumentNode \<Rightarrow> string option
     \<Rightarrow> ChunkResult \<times> ChunkedFigmaClient" where
  "streamNodes sz this document cursor =
     (let queue0 = map (\<lambda>node. (node, 0)) (doc_children document);
          currentIndex = (case cursor of
                            None \<Rightarrow> Some 0
                          | Some c \<Rightarrow> if c = [] then Some 0 else parseInt c);
          queue1 = skipLoop currentIndex queue0;
          (result, queue, p) =
             streamLoop sz (pageSize (clientConfig this)) (nodeProcessor this) queue1 []
      in (\<lparr>nodes = result,
           memoryUsage = getCurrentSize p,
           nextCursor = (if length queue > 0 then Some (toString (getProcessedCount p)) else None),
           hasMore = (length queue > 0)\<rparr>,
          this\<lparr>nodeProcessor := p\<rparr>))"

section \<open>ChunkedFigmaClient: constructor and getFileInfoChunked\<close>

text \<open>
  \<open>Partial<ChunkConfig>\<close>: a key that is absent is \<open>None\<close>. (A key that is present with
  the value \<open>undefined\<close> is not a value of this model.)
\<close>

record PartialChunkConfig =
  p_pageSize :: "int option"
  p_maxMemoryMB :: "rat option"
  p_nodeTypes :: "string list option"
  p_maxDepth :: "int option"
  p_excludeProps :: "string list option"
  p_maxResponseSize :: "rat option"
  p_summarizeNodes :: "bool option"

definition emptyConfig :: PartialChunkConfig where
  "emptyConfig = \<lparr>p_pageSize = None, p_maxMemoryMB = None, p_nodeTypes = None,
     p_maxDepth = None, p_excludeProps = None, p_maxResponseSize = None,
     p_summarizeNodes = None\<rparr>"

definition newClient :: "PartialChunkConfig \<Rightarrow> ChunkedFigmaClient" where
  "newClient cfg =
     (let c = \<lparr>pageSize = jsOr (p_pageSize cfg) 100,
                maxMemoryMB = jsOr (p_maxMemoryMB cfg) 512,
                nodeTypes = p_nodeTypes cfg,
                maxDepth = p_maxDepth cfg,
                excludeProps = p_excludeProps cfg,
                maxResponseSize = Some (jsOr (p_maxResponseSize cfg) 50),
                summarizeNodes = p_summarizeNodes cfg\<rparr>
      in \<lparr>clientConfig = c, nodeProcessor = newProcessor c\<rparr>)"

text \<open>The spread \<open>{...this.config, ...config}\<close>: the keys of \<open>config\<close> win.\<close>

definition mergeConfig :: "ChunkConfig \<Rightarrow> PartialChunkConfig \<Rightarrow> ChunkConfig" where
  "mergeConfig c cfg =
     \<lparr>pageSize = (case p_pageSize cfg of Some v \<Rightarrow> v | None \<Rightarrow> pageSize c),
      maxMemoryMB = (case p_maxMemoryMB cfg of Some v \<Rightarrow> v | None \<Rightarrow> maxMemoryMB c),
      nodeTypes = (case p_nodeTypes cfg of Some v \<Rightarrow> Some v | None \<Rightarrow> nodeTypes c),
      maxDepth = (case p_maxDepth cfg of Some v \<Rightarrow> Some v | None \<Rightarrow> maxDepth c),
      excludeProps = (case p_excludeProps cfg of Some v \<Rightarrow> Some v | None \<Rightarrow> excludeProps c),
      maxResponseSize =
        (case p_maxResponseSize cfg of Some v \<Rightarrow> Some v | None \<Rightarrow> maxResponseSize c),
      summarizeNodes =
        (case p_summarizeNodes cfg of Some v \<Rightarrow> Some v | None \<Rightarrow> summarizeNodes c)\<rparr>"

text \<open>
  The answer of the upstream fetch \<open>this.client.get('/files/' + fileKey)\<close>: an axios error
  with its message, a response without \<open>data.document\<close>, or a document.
\<close>

datatype upstream = AxiosError string | NoDocument | Document DocumentNode

datatype error = FigmaApiError string | InvalidResponse

definition getFileInfoChunked ::
  "(SceneNode \<Rightarrow> nat) \<Rightarrow> ChunkedFigmaClient \<Rightarrow> upstream \<Rightarrow> string option
     \<Rightarrow> PartialChunkConfig option \<Rightarrow> (error + ChunkResult) \<times> ChunkedFigmaClient" where
  "getFileInfoChunked sz this response cursor cfg =
     (let this1 = (case cfg of
                     None \<Rightarrow> this
                   | Some c \<Rightarrow>
                       let merged = mergeConfig (clientConfig this) c
                       in \<lparr>clientConfig = merged, nodeProcessor = newProcessor merged\<rparr>)
      in case response of
           AxiosError msg \<Rightarrow> (Inl (FigmaApiError msg), this1)
         | NoDocument \<Rightarrow> (Inl InvalidResponse, this1)
         | Document document \<Rightarrow>
             (let (r, this2) = streamNodes sz this1 document cursor in (Inr r, this2)))"

section \<open>Notions used to state the properties\<close>

text \<open>
  The queue of \<open>streamNodes\<close> when its main loop starts: the top-level children at depth 0,
  after the skip loop.
\<close>

definition seededQueue :: "DocumentNode \<Rightarrow> string option \<Rightarrow> (SceneNode \<times> nat) list" where
  "seededQueue document cursor =
     skipLoop (case cursor of None \<Rightarrow> Some 0
               | Some c \<Rightarrow> if c = [] then Some 0 else parseInt c)
       (map (\<lambda>node. (node, 0)) (doc_children document))"

text \<open>What \<open>processNode\<close> returns for a node that it admits.\<close>

definition processedForm :: "ChunkConfig \<Rightarrow> SceneNode \<Rightarrow> SceneNode" where
  "processedForm cfg node =
     (if summarizeNodes cfg = Some True
      then summarizeNode (filterNodeProperties cfg node)
      else filterNodeProperties cfg node)"

text \<open>The operand of both size comparisons: \<open>maxResponseSize || maxMemoryMB\<close>.\<close>

definition effectiveBudget :: "ChunkConfig \<Rightarrow> rat" where
  "effectiveBudget cfg = jsOr (maxResponseSize cfg) (maxMemoryMB cfg)"

text \<open>Pre-order, depth-first enumeration of a tree and of a list of trees.\<close>

fun preorder :: "SceneNode \<Rightarrow> SceneNode list" where
  "preorder (SceneNode i t n v cs ps) =
     SceneNode i t n v cs ps # (case cs of None \<Rightarrow> [] | Some l \<Rightarrow> concat (map preorder l))"

definition preorderForest :: "SceneNode list \<Rightarrow> SceneNode list" where
  "preorderForest ns = concat (map preorder ns)"

text \<open>
  The byte length of \<open>JSON.stringify\<close> on the nodes of the examples: nodes whose keys are
  among \<open>id\<close>, \<open>type\<close>, \<open>name\<close>, \<open>visible\<close> and \<open>children\<close>, with ASCII strings that need no
  escape. \<open>{"id":"1","type":"TEXT"}\<close> has 24 bytes.
\<close>

fun exampleBytes :: "SceneNode \<Rightarrow> nat" where
  "exampleBytes (SceneNode i t n v cs ps) =
     19 + length i + length t
     + (case n of None \<Rightarrow> 0 | Some s \<Rightarrow> 10 + length s)
     + (case v of None \<Rightarrow> 0 | Some b \<Rightarrow> if b then 15 else 16)
     + (case cs of None \<Rightarrow> 0
        | Some l \<Rightarrow> 14 + sum_list (map exampleBytes l) + (length l - 1))"

definition frameA :: SceneNode where
  "frameA = SceneNode ''1'' ''FRAME'' None None None []"

definition frameB :: SceneNode where
  "frameB = SceneNode ''2'' ''FRAME'' None None None []"

definition frameC :: SceneNode where
  "frameC = SceneNode ''3'' ''FRAME'' None None None []"

definition textNode :: SceneNode where
  "textNode = SceneNode ''4'' ''TEXT'' None None None []"

definition frameWithText :: SceneNode where
  "frameWithText = SceneNode ''5'' ''FRAME'' None None (Some [textNode]) []"

text \<open>
  What admitting a node needs of the budget: its estimate must pass the check, and the
  estimate of its processed form, which is what the accumulator grows by, must stay below
  the limit.
\<close>

definition admissionCost :: "(SceneNode \<Rightarrow> nat) \<Rightarrow> ChunkConfig \<Rightarrow> SceneNode \<Rightarrow> rat" where
  "admissionCost sz cfg node =
     max (estimateNodeSize sz node) (estimateNodeSize sz (processedForm cfg node))"

section \<open>Basic facts about the processor and the loop\<close>

lemmas example_defs =
  frameA_def frameB_def frameC_def textNode_def frameWithText_def

lemmas client_defs =
  newClient_def emptyConfig_def newProcessor_def jsOr_def Let_def

lemmas processor_defs =
  processNode_def shouldProcessNode_def hasReachedLimit_def estimateNodeSize_def
  filterNodeProperties_def unshiftChildren_def

lemmas parseInt_defs =
  parseInt_def isDigit_def digitsValue_def asciiWhiteSpace_def whiteSpace2_def whiteSpace3_def

lemma processNode_skip:
  "\<not> shouldProcessNode sz p node depth \<Longrightarrow> processNode sz p node depth = (None, p)"
  by (simp add: processNode_def)

lemma processNode_admit:
  "shouldProcessNode sz p node depth \<Longrightarrow>
   processNode sz p node depth =
     (Some (processedForm (config p) node),
      p\<lparr>processedNodes := insert (node_id node) (processedNodes p),
        currentSize := currentSize p + estimateNodeSize sz (processedForm (config p) node)\<rparr>)"
  by (simp add: processNode_def processedForm_def Let_def)

lemma streamLoop_skip_step:
  assumes "\<not> shouldProcessNode sz p node depth" and "int (length result) < ps"
  shows "streamLoop sz ps p ((node, depth) # queue) result =
           (if hasReachedLimit p then (result, unshiftChildren node depth queue, p)
            else streamLoop sz ps p (unshiftChildren node depth queue) result)"
  using assms by (simp add: streamLoop.simps processNode_skip Let_def)

lemma streamLoop_admit_step:
  assumes "shouldProcessNode sz p node depth" and "int (length result) < ps"
  shows "streamLoop sz ps p ((node, depth) # queue) result =
           (let p' = snd (processNode sz p node depth);
                result' = result @ [processedForm (config p) node]
            in if hasReachedLimit p' then (result', unshiftChildren node depth queue, p')
               else streamLoop sz ps p' (unshiftChildren node depth queue) result')"
  using assms by (simp add: streamLoop.simps processNode_admit Let_def)

lemma streamLoop_page_full:
  "\<not> int (length result) < ps \<Longrightarrow> streamLoop sz ps p queue result = (result, queue, p)"
  by (cases queue) (auto simp: streamLoop.simps)

lemma streamNodes_unfold:
  "streamNodes sz this document cursor =
     (let r = streamLoop sz (pageSize (clientConfig this)) (nodeProcessor this)
                (seededQueue document cursor) []
      in (\<lparr>nodes = fst r,
           memoryUsage = currentSize (snd (snd r)),
           nextCursor = (if fst (snd r) \<noteq> []
                         then Some (toString (card (processedNodes (snd (snd r))))) else None),
           hasMore = (fst (snd r) \<noteq> [])\<rparr>,
          this\<lparr>nodeProcessor := snd (snd r)\<rparr>))"
  by (simp add: streamNodes_def seededQueue_def Let_def case_prod_beta getCurrentSize_def
        getProcessedCount_def)

text \<open>
  A single induction principle for the main loop: a property of the loop's state that
  holds at the start and is kept by every iteration holds at the exit.
\<close>

lemma streamLoop_invariant:
  assumes start: "I p queue result"
    and skip: "\<And>p node depth queue result.
        I p ((node, depth) # queue) result \<Longrightarrow> int (length result) < ps \<Longrightarrow>
        \<not> shouldProcessNode sz p node depth \<Longrightarrow>
        I p (unshiftChildren node depth queue) result"
    and admit: "\<And>p node depth queue result.
        I p ((node, depth) # queue) result \<Longrightarrow> int (length result) < ps \<Longrightarrow>
        shouldProcessNode sz p node depth \<Longrightarrow>
        I (snd (processNode sz p node depth)) (unshiftChildren node depth queue)
          (result @ [processedForm (config p) node])"
  shows "case streamLoop sz ps p queue result of (result', queue', p') \<Rightarrow> I p' queue' result'"
  using assms
proof (induction sz ps p queue result rule: streamLoop.induct)
  case (1 sz ps p result)
  then show ?case by (simp add: streamLoop.simps)
next
  case (2 sz ps p node depth queue result)
  note start = "2.prems"(1) and skip = "2.prems"(2) and admit = "2.prems"(3)
  show ?case
  proof (cases "int (length result) < ps")
    case False
    with start show ?thesis by (simp add: streamLoop_page_full)
  next
    case room: True
    define r where "r = processNode sz p node depth"
    define result' where
      "result' = (case fst r of Some processedNode \<Rightarrow> result @ [processedNode] | None \<Rightarrow> result)"
    define queue' where "queue' = unshiftChildren node depth queue"
    have step: "I (snd r) queue' result'"
    proof (cases "shouldProcessNode sz p node depth")
      case True
      from admit[OF start room True] show ?thesis
        by (simp add: r_def result'_def queue'_def processNode_admit[OF True])
    next
      case False
      from skip[OF start room False] show ?thesis
        by (simp add: r_def result'_def queue'_def processNode_skip[OF False])
    qed
    show ?thesis
    proof (cases "hasReachedLimit (snd r)")
      case True
      with room step show ?thesis
        by (simp add: streamLoop.simps Let_def r_def result'_def queue'_def)
    next
      case False
      from "2.IH"[OF room r_def result'_def queue'_def False step skip admit]
      show ?thesis using room False
        by (simp add: streamLoop.simps Let_def r_def result'_def queue'_def)
    qed
  qed
qed

lemma estimateNodeSize_nonneg: "0 \<le> estimateNodeSize sz node"
  by (simp add: estimateNodeSize_def)

lemma unshiftChildren_childless:
  "childrenOrEmpty node = [] \<Longrightarrow> unshiftChildren node depth queue = queue"
  by (simp add: unshiftChildren_def childrenOrEmpty_def split: option.splits)

lemma skipLoop_drop: "skipLoop (Some k) queue = drop (nat k) queue"
proof (induction queue arbitrary: k)
  case Nil
  show ?case by simp
next
  case (Cons e queue)
  show ?case
  proof (cases "0 < k")
    case True
    then have "nat k = Suc (nat (k - 1))" by simp
    with True Cons show ?thesis by simp
  next
    case False
    then show ?thesis by simp
  qed
qed

lemma node_id_deleteProp: "node_id (deleteProp prop node) = node_id node"
  by (cases node) (simp add: deleteProp_def)

lemma node_id_filterLoop: "node_id (filterLoop names node) = node_id node"
  by (induction names arbitrary: node) (simp_all add: node_id_deleteProp)

lemma node_id_filterNodeProperties: "node_id (filterNodeProperties cfg node) = node_id node"
  by (simp add: filterNodeProperties_def node_id_filterLoop del: filterLoop.simps
      split: option.split list.split)

lemma node_id_summarizeNode: "node_id (summarizeNode node) = node_id node"
  by (simp add: summarizeNode_def Let_def)

lemma node_id_processedForm: "node_id (processedForm cfg node) = node_id node"
  by (simp add: processedForm_def node_id_summarizeNode node_id_filterNodeProperties)

lemma shouldProcessNode_fresh:
  "shouldProcessNode sz p node depth \<Longrightarrow> node_id node \<notin> processedNodes p"
  by (simp add: shouldProcessNode_def split: if_splits)

lemma snd_processNode_admit:
  "shouldProcessNode sz p node depth \<Longrightarrow>
   snd (processNode sz p node depth) =
     p\<lparr>processedNodes := insert (node_id node) (processedNodes p),
       currentSize := currentSize p + estimateNodeSize sz (processedForm (config p) node)\<rparr>"
  by (simp add: processNode_admit)

text \<open>
  Over a run of the main loop the dedup set only grows, and the nodes added to the page
  carry ids that were not in the set when the run started.
\<close>

lemma streamLoop_dedup:
  assumes "streamLoop sz ps p queue result = (result', queue', p')"
  shows "processedNodes p \<subseteq> processedNodes p'
       \<and> (\<exists>new. result' = result @ new
              \<and> node_id ` set new \<subseteq> processedNodes p' - processedNodes p)"
proof -
  let ?I = "\<lambda>q (qu :: (SceneNode \<times> nat) list) r. processedNodes p \<subseteq> processedNodes q
       \<and> (\<exists>new. r = result @ new \<and> node_id ` set new \<subseteq> processedNodes q - processedNodes p)"
  have "case streamLoop sz ps p queue result of (r', qu', q') \<Rightarrow> ?I q' qu' r'"
  proof (rule streamLoop_invariant[where I = ?I])
    show "?I p queue result" by simp
  next
    fix q :: StreamingNodeProcessor and node :: SceneNode and depth :: nat
      and qu :: "(SceneNode \<times> nat) list" and r :: "SceneNode list"
    assume "?I q ((node, depth) # qu) r"
    then show "?I q (unshiftChildren node depth qu) r" by simp
  next
    fix q :: StreamingNodeProcessor and node :: SceneNode and depth :: nat
      and qu :: "(SceneNode \<times> nat) list" and r :: "SceneNode list"
    assume inv: "?I q ((node, depth) # qu) r" and should: "shouldProcessNode sz q node depth"
    from inv obtain new where new: "r = result @ new"
      "node_id ` set new \<subseteq> processedNodes q - processedNodes p" by blast
    have fresh: "node_id node \<notin> processedNodes p"
      using shouldProcessNode_fresh[OF should] inv by blast
    have "r @ [processedForm (config q) node] = result @ (new @ [processedForm (config q) node])"
      using new by simp
    moreover have "node_id ` set (new @ [processedForm (config q) node])
        \<subseteq> insert (node_id node) (processedNodes q) - processedNodes p"
      using new fresh by (auto simp add: node_id_processedForm)
    ultimately show "?I (snd (processNode sz q node depth)) (unshiftChildren node depth qu)
        (r @ [processedForm (config q) node])"
      using inv by (simp only: snd_processNode_admit[OF should]) (simp, blast)
  qed
  with assms show ?thesis by simp
qed

lemma admissionCost_nonneg: "0 \<le> admissionCost sz cfg node"
  by (simp add: admissionCost_def estimateNodeSize_nonneg le_max_iff_disj)

lemma sum_admissionCost_nonneg: "0 \<le> sum_list (map (admissionCost sz cfg) ns)"
  by (induction ns) (simp_all add: admissionCost_nonneg)

lemma hasReachedLimit_budget:
  "hasReachedLimit p = (effectiveBudget (config p) \<le> currentSize p)"
  by (simp add: hasReachedLimit_def effectiveBudget_def)

lemma preorder_unfold: "preorder node = node # preorderForest (childrenOrEmpty node)"
  by (cases node) (simp add: preorderForest_def childrenOrEmpty_def split: option.split)

lemma preorderForest_Cons:
  "preorderForest (node # ns) = node # preorderForest (childrenOrEmpty node) @ preorderForest ns"
  by (simp add: preorderForest_def preorder_unfold[of node])

lemma preorderForest_append:
  "preorderForest (ms @ ns) = preorderForest ms @ preorderForest ns"
  by (simp add: preorderForest_def)

lemma preorderForest_empty: "preorderForest ns = [] \<Longrightarrow> ns = []"
  by (cases ns) (simp_all add: preorderForest_Cons)

lemma map_fst_unshiftChildren:
  "map fst (unshiftChildren node depth queue) = childrenOrEmpty node @ map fst queue"
  by (simp add: unshiftChildren_def childrenOrEmpty_def comp_def split: option.split)

lemma streamLoop_exit:
  "case streamLoop sz ps p queue result of
     (result', queue', p') \<Rightarrow> queue' = [] \<or> \<not> int (length result') < ps \<or> hasReachedLimit p'"
proof (induction sz ps p queue result rule: streamLoop.induct)
  case (1 sz ps p result)
  show ?case by (simp add: streamLoop.simps)
next
  case (2 sz ps p node depth queue result)
  show ?case
  proof (cases "int (length result) < ps")
    case False
    then show ?thesis by (simp add: streamLoop_page_full)
  next
    case room: True
    define r where "r = processNode sz p node depth"
    define result' where
      "result' = (case fst r of Some processedNode \<Rightarrow> result @ [processedNode] | None \<Rightarrow> result)"
    define queue' where "queue' = unshiftChildren node depth queue"
    show ?thesis
    proof (cases "hasReachedLimit (snd r)")
      case True
      with room show ?thesis
        by (simp add: streamLoop.simps Let_def r_def result'_def queue'_def)
    next
      case False
      from "2.IH"[OF room r_def result'_def queue'_def False]
      show ?thesis using room False
        by (simp add: streamLoop.simps Let_def r_def result'_def queue'_def)
    qed
  qed
qed

lemma streamLoop_preorder:
  assumes types: "nodeTypes (config p) = None" and depths: "maxDepth (config p) = None"
    and ids: "distinct (map node_id (preorderForest (map fst queue)))"
    and fresh: "node_id ` set (preorderForest (map fst queue)) \<inter> processedNodes p = {}"
    and page: "int (length result) + int (length (preorderForest (map fst queue))) \<le> ps"
    and budget: "currentSize p
        + sum_list (map (admissionCost sz (config p)) (preorderForest (map fst queue)))
        < effectiveBudget (config p)"
  shows "fst (streamLoop sz ps p queue result)
           = result @ map (processedForm (config p)) (preorderForest (map fst queue))
         \<and> fst (snd (streamLoop sz ps p queue result)) = []"
proof -
  define cfg where "cfg = config p"
  define target where
    "target = result @ map (processedForm cfg) (preorderForest (map fst queue))"
  define I where "I = (\<lambda>(q :: StreamingNodeProcessor) (qu :: (SceneNode \<times> nat) list)
      (r :: SceneNode list).
      config q = cfg
      \<and> r @ map (processedForm cfg) (preorderForest (map fst qu)) = target
      \<and> distinct (map node_id (preorderForest (map fst qu)))
      \<and> node_id ` set (preorderForest (map fst qu)) \<inter> processedNodes q = {}
      \<and> int (length r) + int (length (preorderForest (map fst qu))) \<le> ps
      \<and> currentSize q + sum_list (map (admissionCost sz cfg) (preorderForest (map fst qu)))
          < effectiveBudget cfg)"
  have should: "shouldProcessNode sz q node depth"
    if inv: "I q ((node, depth) # qu) r" for q node depth qu r
  proof -
    let ?rest = "preorderForest (childrenOrEmpty node) @ preorderForest (map fst qu)"
    from inv have c: "config q = cfg" and "node_id node \<notin> processedNodes q"
      and b: "currentSize q + (admissionCost sz cfg node + sum_list (map (admissionCost sz cfg) ?rest))
          < effectiveBudget cfg"
      by (auto simp add: I_def preorderForest_Cons)
    moreover have "estimateNodeSize sz node \<le> admissionCost sz cfg node"
      by (simp add: admissionCost_def)
    moreover note sum_admissionCost_nonneg[of sz cfg ?rest]
    ultimately show ?thesis
      using types depths
      by (simp add: shouldProcessNode_def cfg_def effectiveBudget_def Let_def)
  qed
  have "case streamLoop sz ps p queue result of (r', qu', q') \<Rightarrow> I q' qu' r'"
  proof (rule streamLoop_invariant[where I = I])
    show "I p queue result"
      using ids fresh page budget by (simp add: I_def cfg_def target_def)
  next
    fix q :: StreamingNodeProcessor and node :: SceneNode and depth :: nat
      and qu :: "(SceneNode \<times> nat) list" and r :: "SceneNode list"
    assume "I q ((node, depth) # qu) r" and "\<not> shouldProcessNode sz q node depth"
    with should show "I q (unshiftChildren node depth qu) r" by blast
  next
    fix q :: StreamingNodeProcessor and node :: SceneNode and depth :: nat
      and qu :: "(SceneNode \<times> nat) list" and r :: "SceneNode list"
    assume inv: "I q ((node, depth) # qu) r" and adm: "shouldProcessNode sz q node depth"
    let ?rest = "preorderForest (childrenOrEmpty node) @ preorderForest (map fst qu)"
    have rest: "preorderForest (map fst (unshiftChildren node depth qu)) = ?rest"
      by (simp add: map_fst_unshiftChildren preorderForest_append)
    from inv have c: "config q = cfg"
      and t: "r @ processedForm cfg node # map (processedForm cfg) ?rest = target"
      and d: "node_id node \<notin> node_id ` set ?rest" "distinct (map node_id ?rest)"
      and f: "node_id ` set ?rest \<inter> processedNodes q = {}"
      and l: "int (length r) + (1 + int (length ?rest)) \<le> ps"
      and b: "currentSize q + (admissionCost sz cfg node + sum_list (map (admissionCost sz cfg) ?rest))
          < effectiveBudget cfg"
      by (auto simp add: I_def preorderForest_Cons)
    have "estimateNodeSize sz (processedForm cfg node) \<le> admissionCost sz cfg node"
      by (simp add: admissionCost_def)
    with b have b': "currentSize q + estimateNodeSize sz (processedForm cfg node)
        + sum_list (map (admissionCost sz cfg) ?rest) < effectiveBudget cfg"
      by linarith
    show "I (snd (processNode sz q node depth)) (unshiftChildren node depth qu)
        (r @ [processedForm (config q) node])"
      unfolding I_def rest snd_processNode_admit[OF adm] c
      using c t d f l b' by auto
  qed
  moreover note streamLoop_exit[where sz = sz and ps = ps and p = p and queue = queue
      and result = result]
  ultimately obtain r' qu' q' where run: "streamLoop sz ps p queue result = (r', qu', q')"
    and inv: "I q' qu' r'"
    and exit: "qu' = [] \<or> \<not> int (length r') < ps \<or> hasReachedLimit q'"
    by (cases "streamLoop sz ps p queue result") auto
  have "qu' = []"
  proof (rule ccontr)
    assume ne: "qu' \<noteq> []"
    then have "preorderForest (map fst qu') \<noteq> []"
      using preorderForest_empty by fastforce
    then have "0 < int (length (preorderForest (map fst qu')))" by simp
    moreover from inv
    have "int (length r') + int (length (preorderForest (map fst qu'))) \<le> ps"
      by (simp add: I_def)
    ultimately have "int (length r') < ps" by linarith
    moreover from inv sum_admissionCost_nonneg[of sz cfg "preorderForest (map fst qu')"]
    have "\<not> hasReachedLimit q'"
      by (simp add: I_def hasReachedLimit_budget)
    ultimately show False using exit ne by blast
  qed
  with inv have "r' = target" by (simp add: I_def preorderForest_def)
  with run \<open>qu' = []\<close> show ?thesis by (simp add: target_def cfg_def)
qed




section \<open>The claims\<close>

text \<open>
  C1. Page bound: whatever the document, the cursor and the state of the client, a call of
  \<open>streamNodes\<close> under a configuration with \<open>pageSize \<ge> 1\<close> returns at most \<open>pageSize\<close>
  nodes.
\<close>

theorem streamNodes_page_bound:
  assumes "1 \<le> pageSize (clientConfig this)"
  shows "int (length (nodes (fst (streamNodes sz this document cursor))))
           \<le> pageSize (clientConfig this)"
proof -
  let ?ps = "pageSize (clientConfig this)"
  have "case streamLoop sz ?ps (nodeProcessor this) (seededQueue document cursor) [] of
          (result', queue', p') \<Rightarrow> int (length result') \<le> ?ps"
    using assms
    by (intro streamLoop_invariant[where I = "\<lambda>p queue result. int (length result) \<le> ?ps"])
       simp_all
  then show ?thesis
    by (simp add: streamNodes_unfold Let_def case_prod_beta)
qed

theorem streamNodes_page_bound_witness:
  "1 \<le> pageSize (clientConfig (newClient (emptyConfig\<lparr>p_pageSize := Some 2\<rparr>)))
   \<and> int (length (nodes (fst (streamNodes exampleBytes
          (newClient (emptyConfig\<lparr>p_pageSize := Some 2\<rparr>))
          \<lparr>doc_children = [frameA, frameB, frameC]\<rparr> None)))) \<le> 2"
proof -
  have h: "1 \<le> pageSize (clientConfig (newClient (emptyConfig\<lparr>p_pageSize := Some 2\<rparr>)))"
    by (simp add: client_defs)
  show ?thesis
    using h streamNodes_page_bound[OF h, of exampleBytes
        "\<lparr>doc_children = [frameA, frameB, frameC]\<rparr>" None]
    by (simp add: client_defs)
qed




text \<open>
  C3. A cursor-less call with no type filter and no depth limit, on a document whose node
  ids are distinct and not yet in the dedup set, with a page size of at least the number of
  nodes and a budget above what admitting all of them needs, returns every node of the
  document in pre-order, depth first, siblings in document order (each in its processed
  form, which is the node itself when no exclusion and no summarization is configured), and
  leaves nothing in the queue.
\<close>

theorem full_traversal_is_preorder:
  assumes "nodeTypes (config (nodeProcessor this)) = None"
    and "maxDepth (config (nodeProcessor this)) = None"
    and "distinct (map node_id (preorderForest (doc_children document)))"
    and "node_id ` set (preorderForest (doc_children document))
           \<inter> processedNodes (nodeProcessor this) = {}"
    and "int (length (preorderForest (doc_children document))) \<le> pageSize (clientConfig this)"
    and "currentSize (nodeProcessor this)
           + sum_list (map (admissionCost sz (config (nodeProcessor this)))
               (preorderForest (doc_children document)))
           < effectiveBudget (config (nodeProcessor this))"
  shows "nodes (fst (streamNodes sz this document None))
           = map (processedForm (config (nodeProcessor this)))
               (preorderForest (doc_children document))
         \<and> \<not> hasMore (fst (streamNodes sz this document None))
         \<and> (excludeProps (config (nodeProcessor this)) = None
              \<and> summarizeNodes (config (nodeProcessor this)) \<noteq> Some True \<longrightarrow>
            nodes (fst (streamNodes sz this document None))
              = preorderForest (doc_children document))"
proof -
  have seed: "map fst (seededQueue document None) = doc_children document"
    by (simp add: seededQueue_def skipLoop_drop comp_def)
  have plain: "map (processedForm (config (nodeProcessor this))) ns = ns"
    if "excludeProps (config (nodeProcessor this)) = None"
      and "summarizeNodes (config (nodeProcessor this)) \<noteq> Some True" for ns
    using that by (simp add: processedForm_def filterNodeProperties_def map_idI)
  from streamLoop_preorder[of "nodeProcessor this" "seededQueue document None" "[]"
      "pageSize (clientConfig this)" sz] assms
  have "fst (streamLoop sz (pageSize (clientConfig this)) (nodeProcessor this)
          (seededQueue document None) [])
        = map (processedForm (config (nodeProcessor this))) (preorderForest (doc_children document))"
    and "fst (snd (streamLoop sz (pageSize (clientConfig this)) (nodeProcessor this)
          (seededQueue document None) [])) = []"
    by (simp_all add: seed)
  then show ?thesis
    using plain by (simp add: streamNodes_unfold Let_def)
qed

theorem full_traversal_is_preorder_witness:
  "preorderForest [frameWithText, frameA] = [frameWithText, textNode, frameA]
   \<and> nodes (fst (streamNodes exampleBytes (newClient emptyConfig)
         \<lparr>doc_children = [frameWithText, frameA]\<rparr> None)) = [frameWithText, textNode, frameA]"
proof -
  let ?c = "newClient emptyConfig"
  let ?d = "\<lparr>doc_children = [frameWithText, frameA]\<rparr>"
  have pre: "preorderForest [frameWithText, frameA] = [frameWithText, textNode, frameA]"
    by (simp add: preorderForest_def example_defs)
  have form: "processedForm (config (nodeProcessor ?c)) n = n" for n
    by (simp add: processedForm_def filterNodeProperties_def client_defs)
  have a: "nodeTypes (config (nodeProcessor ?c)) = None"
    and b: "maxDepth (config (nodeProcessor ?c)) = None"
    and e: "excludeProps (config (nodeProcessor ?c)) = None
        \<and> summarizeNodes (config (nodeProcessor ?c)) \<noteq> Some True"
    by (simp_all add: client_defs)
  have c: "distinct (map node_id (preorderForest (doc_children ?d)))"
    and d: "node_id ` set (preorderForest (doc_children ?d)) \<inter> processedNodes (nodeProcessor ?c) = {}"
    and f: "int (length (preorderForest (doc_children ?d))) \<le> pageSize (clientConfig ?c)"
    by (simp_all add: pre) (simp_all add: client_defs example_defs)
  have g: "currentSize (nodeProcessor ?c)
           + sum_list (map (admissionCost exampleBytes (config (nodeProcessor ?c)))
               (preorderForest (doc_children ?d)))
           < effectiveBudget (config (nodeProcessor ?c))"
    by (simp add: pre admissionCost_def form)
       (simp add: client_defs example_defs estimateNodeSize_def effectiveBudget_def)
  from full_traversal_is_preorder[OF a b c d f g, THEN conjunct2, THEN conjunct2, rule_format, OF e]
  show ?thesis by (simp add: pre)
qed

text \<open>
  C4. Three top-level FRAME nodes without children, \<open>pageSize = 2\<close> and a budget \<open>B\<close> above
  the total size: the first call, without cursor, on the new client returns the first two
  nodes with \<open>hasMore = true\<close> and \<open>nextCursor = "2"\<close> (the number of nodes admitted so
  far); the second call on the same client with cursor \<open>"2"\<close> returns the third node with
  \<open>hasMore = false\<close> and no \<open>nextCursor\<close>.
\<close>

theorem three_frames_two_pages:
  assumes types: "node_type a = ''FRAME''" "node_type b = ''FRAME''" "node_type c = ''FRAME''"
    and leaves: "childrenOrEmpty a = []" "childrenOrEmpty b = []" "childrenOrEmpty c = []"
    and ids: "distinct [node_id a, node_id b, node_id c]"
    and budget: "estimateNodeSize sz a + estimateNodeSize sz b + estimateNodeSize sz c < B"
    and first: "streamNodes sz
        (newClient (emptyConfig\<lparr>p_pageSize := Some 2, p_maxResponseSize := Some B\<rparr>))
        \<lparr>doc_children = [a, b, c]\<rparr> None = (r1, this1)"
    and second: "streamNodes sz this1 \<lparr>doc_children = [a, b, c]\<rparr> (Some ''2'') = (r2, this2)"
  shows "nodes r1 = [a, b] \<and> hasMore r1 \<and> nextCursor r1 = Some ''2''
       \<and> nodes r2 = [c] \<and> \<not> hasMore r2 \<and> nextCursor r2 = None"
proof -
  note nn = estimateNodeSize_nonneg[of sz a] estimateNodeSize_nonneg[of sz b]
    estimateNodeSize_nonneg[of sz c]
  have B: "B \<noteq> 0" using budget nn by linarith
  let ?cfg = "\<lparr>pageSize = 2, maxMemoryMB = 512, nodeTypes = None, maxDepth = None,
      excludeProps = None, maxResponseSize = Some B, summarizeNodes = None\<rparr>"
  define p0 where "p0 = \<lparr>processedNodes = {}, config = ?cfg, currentSize = 0\<rparr>"
  define p1 where "p1 = \<lparr>processedNodes = {node_id a}, config = ?cfg,
      currentSize = estimateNodeSize sz a\<rparr>"
  define p2 where "p2 = \<lparr>processedNodes = {node_id b, node_id a}, config = ?cfg,
      currentSize = estimateNodeSize sz a + estimateNodeSize sz b\<rparr>"
  define p3 where "p3 = \<lparr>processedNodes = {node_id c, node_id b, node_id a}, config = ?cfg,
      currentSize = estimateNodeSize sz a + estimateNodeSize sz b + estimateNodeSize sz c\<rparr>"
  have form: "processedForm ?cfg n = n" for n
    by (simp add: processedForm_def filterNodeProperties_def)
  have sa: "shouldProcessNode sz p0 a 0" and sb: "shouldProcessNode sz p1 b 0"
    and sc: "shouldProcessNode sz p2 c 0"
    using B ids budget nn
    by (auto simp add: shouldProcessNode_def p0_def p1_def p2_def jsOr_def)
  have pa: "snd (processNode sz p0 a 0) = p1" and pb: "snd (processNode sz p1 b 0) = p2"
    and pc: "snd (processNode sz p2 c 0) = p3"
    by (simp_all add: processNode_admit sa sb sc) (simp_all add: p0_def p1_def p2_def p3_def form)
  have l1: "\<not> hasReachedLimit p1" and l2: "\<not> hasReachedLimit p2"
    using B budget nn by (simp_all add: hasReachedLimit_def p1_def p2_def jsOr_def)
  have cfg: "config p0 = ?cfg" "config p1 = ?cfg" "config p2 = ?cfg"
    by (simp_all add: p0_def p1_def p2_def)
  have loop1: "streamLoop sz 2 p0 [(a, 0), (b, 0), (c, 0)] [] = ([a, b], [(c, 0)], p2)"
    by (simp add: streamLoop_admit_step sa sb pa pb l1 l2 cfg form leaves
        unshiftChildren_childless streamLoop_page_full)
  have loop2: "streamLoop sz 2 p2 [(c, 0)] [] = ([c], [], p3)"
    by (simp add: streamLoop_admit_step sc pc cfg form leaves unshiftChildren_childless
        streamLoop.simps(1) Let_def)
  have card2: "card (processedNodes p2) = 2"
    using ids by (auto simp add: p2_def)
  have call1: "streamNodes sz
        (newClient (emptyConfig\<lparr>p_pageSize := Some 2, p_maxResponseSize := Some B\<rparr>))
        \<lparr>doc_children = [a, b, c]\<rparr> None =
      (\<lparr>nodes = [a, b], memoryUsage = currentSize p2,
        nextCursor = Some ''2'', hasMore = True\<rparr>,
       \<lparr>clientConfig = ?cfg, nodeProcessor = p2\<rparr>)"
    using B loop1
    by (simp add: streamNodes_unfold seededQueue_def client_defs p0_def card2 toString.simps)
  have r1: "r1 = \<lparr>nodes = [a, b], memoryUsage = currentSize p2,
       nextCursor = Some ''2'', hasMore = True\<rparr>"
    and this1: "this1 = \<lparr>clientConfig = ?cfg, nodeProcessor = p2\<rparr>"
    using first call1 by simp_all
  have skip: "seededQueue \<lparr>doc_children = [a, b, c]\<rparr> (Some ''2'') = [(c, 0)]"
    by (simp add: seededQueue_def parseInt_defs)
  have call2: "streamNodes sz this1 \<lparr>doc_children = [a, b, c]\<rparr> (Some ''2'') =
      (\<lparr>nodes = [c], memoryUsage = currentSize p3, nextCursor = None, hasMore = False\<rparr>,
       this1\<lparr>nodeProcessor := p3\<rparr>)"
    using loop2 by (simp add: streamNodes_unfold skip this1)
  have r2: "r2 = \<lparr>nodes = [c], memoryUsage = currentSize p3,
       nextCursor = None, hasMore = False\<rparr>"
    using second call2 by simp
  show ?thesis by (simp add: r1 r2)
qed

theorem three_frames_two_pages_witness:
  "\<exists>r1 this1 r2 this2.
     streamNodes exampleBytes
       (newClient (emptyConfig\<lparr>p_pageSize := Some 2, p_maxResponseSize := Some 1000\<rparr>))
       \<lparr>doc_children = [frameA, frameB, frameC]\<rparr> None = (r1, this1)
     \<and> streamNodes exampleBytes this1 \<lparr>doc_children = [frameA, frameB, frameC]\<rparr> (Some ''2'')
         = (r2, this2)
     \<and> nodes r1 = [frameA, frameB] \<and> hasMore r1 \<and> nextCursor r1 = Some ''2''
     \<and> nodes r2 = [frameC] \<and> \<not> hasMore r2 \<and> nextCursor r2 = None"
proof -
  obtain r1 this1 where first: "streamNodes exampleBytes
       (newClient (emptyConfig\<lparr>p_pageSize := Some 2, p_maxResponseSize := Some 1000\<rparr>))
       \<lparr>doc_children = [frameA, frameB, frameC]\<rparr> None = (r1, this1)"
    by (metis surj_pair)
  obtain r2 this2 where second:
    "streamNodes exampleBytes this1 \<lparr>doc_children = [frameA, frameB, frameC]\<rparr> (Some ''2'')
       = (r2, this2)"
    by (metis surj_pair)
  have types: "node_type frameA = ''FRAME''" "node_type frameB = ''FRAME''"
      "node_type frameC = ''FRAME''"
    and leaves: "childrenOrEmpty frameA = []" "childrenOrEmpty frameB = []"
      "childrenOrEmpty frameC = []"
    and ids: "distinct [node_id frameA, node_id frameB, node_id frameC]"
    and budget: "estimateNodeSize exampleBytes frameA + estimateNodeSize exampleBytes frameB
        + estimateNodeSize exampleBytes frameC < 1000"
    by (simp_all add: example_defs childrenOrEmpty_def estimateNodeSize_def)
  from three_frames_two_pages[OF types leaves ids budget first second] first second
  show ?thesis by blast
qed

text \<open>
  C5 as stated fails: a single TEXT node of 24 bytes under a budget of 16 bytes
  (\<open>maxResponseSize = 2^-16\<close> MB) gives an empty page with \<open>hasMore = false\<close>.
\<close>

theorem oversized_single_node_hasMore_counterexample:
  "effectiveBudget (clientConfig (newClient (emptyConfig\<lparr>p_maxResponseSize := Some (1 / 65536)\<rparr>)))
     < estimateNodeSize exampleBytes textNode
   \<and> fst (streamNodes exampleBytes (newClient (emptyConfig\<lparr>p_maxResponseSize := Some (1 / 65536)\<rparr>))
          \<lparr>doc_children = [textNode]\<rparr> None)
       = \<lparr>nodes = [], memoryUsage = 0, nextCursor = None, hasMore = False\<rparr>"
  by (simp add: streamNodes_unfold seededQueue_def client_defs streamLoop.simps processor_defs
      example_defs effectiveBudget_def)

text \<open>
  C5, amended. A document whose single top-level node has no children and an estimated size
  above the budget: the cursor-less call on a processor that has admitted nothing, with
  \<open>pageSize \<ge> 1\<close>, returns normally with no node, \<open>memoryUsage = 0\<close>, \<open>hasMore = false\<close> and
  no \<open>nextCursor\<close>; the rejected node has left the queue.
\<close>

theorem oversized_single_node_empty_result:
  assumes "childrenOrEmpty node = []"
    and "1 \<le> pageSize (clientConfig this)"
    and "currentSize (nodeProcessor this) = 0"
    and "effectiveBudget (config (nodeProcessor this)) < estimateNodeSize sz node"
  shows "streamNodes sz this \<lparr>doc_children = [node]\<rparr> None =
           (\<lparr>nodes = [], memoryUsage = 0, nextCursor = None, hasMore = False\<rparr>, this)"
proof -
  have skip: "\<not> shouldProcessNode sz (nodeProcessor this) node 0"
    using assms(3,4) by (simp add: shouldProcessNode_def effectiveBudget_def)
  have room: "int (length ([] :: SceneNode list)) < pageSize (clientConfig this)"
    using assms(2) by simp
  have "unshiftChildren node 0 [] = []"
    using assms(1) by (simp add: unshiftChildren_def childrenOrEmpty_def split: option.splits)
  then have "streamLoop sz (pageSize (clientConfig this)) (nodeProcessor this) [(node, 0)] []
      = ([], [], nodeProcessor this)"
    by (simp add: streamLoop_skip_step[OF skip room] streamLoop.simps(1))
  then show ?thesis
    using assms(3) by (simp add: streamNodes_unfold seededQueue_def)
qed

theorem oversized_single_node_empty_result_witness:
  "streamNodes exampleBytes (newClient (emptyConfig\<lparr>p_maxResponseSize := Some (1 / 65536)\<rparr>))
      \<lparr>doc_children = [textNode]\<rparr> None =
     (\<lparr>nodes = [], memoryUsage = 0, nextCursor = None, hasMore = False\<rparr>,
      newClient (emptyConfig\<lparr>p_maxResponseSize := Some (1 / 65536)\<rparr>))"
proof -
  let ?this = "newClient (emptyConfig\<lparr>p_maxResponseSize := Some (1 / 65536)\<rparr>)"
  have a: "childrenOrEmpty textNode = []"
    and b: "1 \<le> pageSize (clientConfig ?this)"
    and c: "currentSize (nodeProcessor ?this) = 0"
    and d: "effectiveBudget (config (nodeProcessor ?this)) < estimateNodeSize exampleBytes textNode"
    by (simp_all add: client_defs example_defs childrenOrEmpty_def effectiveBudget_def
        estimateNodeSize_def)
  from oversized_single_node_empty_result[OF a b c d] show ?thesis .
qed

text \<open>
  C6 as stated fails: the cursor \<open>"abc"\<close> parses to NaN, and the call returns the page of the
  cursor-less call instead of an error.
\<close>

theorem malformed_cursor_counterexample:
  "parseInt ''abc'' = None
   \<and> fst (getFileInfoChunked exampleBytes (newClient emptyConfig)
          (Document \<lparr>doc_children = [frameA]\<rparr>) (Some ''abc'') None)
       = Inr \<lparr>nodes = [frameA], memoryUsage = 25 / 1048576, nextCursor = None, hasMore = False\<rparr>"
  by (simp add: getFileInfoChunked_def streamNodes_unfold seededQueue_def parseInt_defs
      client_defs streamLoop.simps processor_defs example_defs)

text \<open>
  C6, amended. A cursor that does not parse as a number raises no error: the call behaves
  exactly as the call without cursor (a skip of zero), and on a document it returns a page.
\<close>

theorem malformed_cursor_is_skip_zero:
  assumes "parseInt c = None"
  shows "getFileInfoChunked sz this response (Some c) cfg
           = getFileInfoChunked sz this response None cfg
         \<and> (\<forall>document. response = Document document \<longrightarrow>
               (\<exists>r this'. getFileInfoChunked sz this response (Some c) cfg = (Inr r, this')))"
proof -
  have "seededQueue document (Some c) = seededQueue document None" for document
    using assms by (simp add: seededQueue_def skipLoop_drop)
  then have "streamNodes sz t document (Some c) = streamNodes sz t document None" for t document
    by (simp add: streamNodes_unfold)
  then show ?thesis
    by (auto simp add: getFileInfoChunked_def Let_def case_prod_beta split: upstream.splits)
qed

theorem malformed_cursor_is_skip_zero_witness:
  "getFileInfoChunked exampleBytes (newClient emptyConfig)
      (Document \<lparr>doc_children = [frameA]\<rparr>) (Some ''abc'') None
     = getFileInfoChunked exampleBytes (newClient emptyConfig)
         (Document \<lparr>doc_children = [frameA]\<rparr>) None None"
proof -
  have h: "parseInt ''abc'' = None"
    by (simp add: parseInt_defs)
  from malformed_cursor_is_skip_zero[OF h] show ?thesis by blast
qed

text \<open>
  C7 as stated fails: with \<open>maxMemoryMB = 2^-15\<close> (32 bytes) and \<open>maxResponseSize = 2^-13\<close>
  (128 bytes) the smaller budget is 32 bytes, yet a call on the new client admits three
  frames of 25 bytes each and returns with an accumulated size of 75 bytes.
\<close>

theorem smaller_budget_counterexample:
  "maxMemoryMB (clientConfig (newClient
       (emptyConfig\<lparr>p_maxMemoryMB := Some (1 / 32768), p_maxResponseSize := Some (1 / 8192)\<rparr>)))
     = 1 / 32768
   \<and> maxResponseSize (clientConfig (newClient
       (emptyConfig\<lparr>p_maxMemoryMB := Some (1 / 32768), p_maxResponseSize := Some (1 / 8192)\<rparr>)))
     = Some (1 / 8192)
   \<and> fst (streamNodes exampleBytes
          (newClient
             (emptyConfig\<lparr>p_maxMemoryMB := Some (1 / 32768), p_maxResponseSize := Some (1 / 8192)\<rparr>))
          \<lparr>doc_children = [frameA, frameB, frameC]\<rparr> None)
       = \<lparr>nodes = [frameA, frameB, frameC], memoryUsage = 75 / 1048576, nextCursor = None,
          hasMore = False\<rparr>
   \<and> min (1 / 32768) (1 / 8192) < (75 / 1048576 :: rat)"
  by (simp add: streamNodes_unfold seededQueue_def client_defs streamLoop.simps processor_defs
      example_defs)

text \<open>
  C7, amended. The budget of the admission check and of the stop condition is
  \<open>maxResponseSize\<close> whenever that is given and not zero, whatever \<open>maxMemoryMB\<close> is, and
  \<open>maxMemoryMB\<close> otherwise: the limit is reached exactly when the accumulator is at or above
  that budget, and a node that passes the dedup, type and depth checks is admitted exactly
  when the accumulator plus its estimate is at most that budget.
\<close>

theorem budget_is_response_size_else_memory:
  "(maxResponseSize (config p) = Some r \<and> r \<noteq> 0 \<longrightarrow>
      hasReachedLimit p = (r \<le> currentSize p)
      \<and> shouldProcessNode sz p node depth =
          (node_id node \<notin> processedNodes p
           \<and> (\<forall>ts. nodeTypes (config p) = Some ts \<longrightarrow> node_type node \<in> set ts)
           \<and> (\<forall>d. maxDepth (config p) = Some d \<longrightarrow> int depth \<le> d)
           \<and> currentSize p + estimateNodeSize sz node \<le> r))
   \<and> (maxResponseSize (config p) = None \<or> maxResponseSize (config p) = Some 0 \<longrightarrow>
      hasReachedLimit p = (maxMemoryMB (config p) \<le> currentSize p)
      \<and> shouldProcessNode sz p node depth =
          (node_id node \<notin> processedNodes p
           \<and> (\<forall>ts. nodeTypes (config p) = Some ts \<longrightarrow> node_type node \<in> set ts)
           \<and> (\<forall>d. maxDepth (config p) = Some d \<longrightarrow> int depth \<le> d)
           \<and> currentSize p + estimateNodeSize sz node \<le> maxMemoryMB (config p)))"
proof -
  have check: "shouldProcessNode sz p node depth =
      (node_id node \<notin> processedNodes p
       \<and> (\<forall>ts. nodeTypes (config p) = Some ts \<longrightarrow> node_type node \<in> set ts)
       \<and> (\<forall>d. maxDepth (config p) = Some d \<longrightarrow> int depth \<le> d)
       \<and> currentSize p + estimateNodeSize sz node
           \<le> jsOr (maxResponseSize (config p)) (maxMemoryMB (config p)))"
    by (cases "nodeTypes (config p)"; cases "maxDepth (config p)")
       (auto simp add: shouldProcessNode_def Let_def)
  have response: "jsOr (maxResponseSize (config p)) (maxMemoryMB (config p)) = r"
    if "maxResponseSize (config p) = Some r" and "r \<noteq> 0"
    using that by (simp add: jsOr_def)
  have memory: "jsOr (maxResponseSize (config p)) (maxMemoryMB (config p)) = maxMemoryMB (config p)"
    if "maxResponseSize (config p) = None \<or> maxResponseSize (config p) = Some 0"
    using that by (auto simp add: jsOr_def)
  show ?thesis
    using response memory by (auto simp add: check hasReachedLimit_def)
qed

theorem budget_is_response_size_else_memory_witness:
  "maxResponseSize (config (nodeProcessor (newClient
       (emptyConfig\<lparr>p_maxMemoryMB := Some (1 / 32768), p_maxResponseSize := Some (1 / 8192)\<rparr>))))
     = Some (1 / 8192)
   \<and> \<not> hasReachedLimit ((nodeProcessor (newClient
       (emptyConfig\<lparr>p_maxMemoryMB := Some (1 / 32768), p_maxResponseSize := Some (1 / 8192)\<rparr>)))
         \<lparr>processedNodes := {''1''}, currentSize := 25 / 1048576\<rparr>)
   \<and> shouldProcessNode exampleBytes ((nodeProcessor (newClient
       (emptyConfig\<lparr>p_maxMemoryMB := Some (1 / 32768), p_maxResponseSize := Some (1 / 8192)\<rparr>)))
         \<lparr>processedNodes := {''1''}, currentSize := 25 / 1048576\<rparr>) frameB 0
   \<and> maxResponseSize (config (newProcessor ((clientConfig (newClient emptyConfig))
         \<lparr>maxMemoryMB := 1 / 32768, maxResponseSize := None\<rparr>))) = None
   \<and> \<not> shouldProcessNode exampleBytes
         ((newProcessor ((clientConfig (newClient emptyConfig))
            \<lparr>maxMemoryMB := 1 / 32768, maxResponseSize := None\<rparr>))
          \<lparr>processedNodes := {''1''}, currentSize := 25 / 1048576\<rparr>) frameB 0"
proof -
  let ?p = "(nodeProcessor (newClient
       (emptyConfig\<lparr>p_maxMemoryMB := Some (1 / 32768), p_maxResponseSize := Some (1 / 8192)\<rparr>)))
         \<lparr>processedNodes := {''1''}, currentSize := 25 / 1048576\<rparr>"
  let ?m = "(newProcessor ((clientConfig (newClient emptyConfig))
            \<lparr>maxMemoryMB := 1 / 32768, maxResponseSize := None\<rparr>))
          \<lparr>processedNodes := {''1''}, currentSize := 25 / 1048576\<rparr>"
  have h: "maxResponseSize (config ?p) = Some (1 / 8192) \<and> (1 / 8192 :: rat) \<noteq> 0"
    by (simp add: client_defs)
  have g: "maxResponseSize (config ?m) = None \<or> maxResponseSize (config ?m) = Some 0"
    by (simp add: client_defs)
  note a = budget_is_response_size_else_memory[THEN conjunct1, rule_format, OF h,
      where sz = exampleBytes and node = frameB and depth = 0]
  note b = budget_is_response_size_else_memory[THEN conjunct2, rule_format, OF g,
      where sz = exampleBytes and node = frameB and depth = 0]
  have "\<not> hasReachedLimit ?p"
    using a by simp
  moreover have "shouldProcessNode exampleBytes ?p frameB 0"
    using a by (simp add: client_defs example_defs estimateNodeSize_def)
  moreover have "\<not> shouldProcessNode exampleBytes ?m frameB 0"
    using b by (simp add: client_defs example_defs estimateNodeSize_def)
  ultimately show ?thesis
    by (simp add: client_defs)
qed

text \<open>
  C8 as stated fails: a call of \<open>getFileInfoChunked\<close> that passes a config, even an empty
  one, replaces the processor, and a node admitted by the call before is admitted again.
\<close>

theorem dedup_reset_by_config_counterexample:
  "fst (getFileInfoChunked exampleBytes (newClient emptyConfig)
          (Document \<lparr>doc_children = [frameA]\<rparr>) None None)
     = Inr \<lparr>nodes = [frameA], memoryUsage = 25 / 1048576, nextCursor = None, hasMore = False\<rparr>
   \<and> fst (getFileInfoChunked exampleBytes
          (snd (getFileInfoChunked exampleBytes (newClient emptyConfig)
                  (Document \<lparr>doc_children = [frameA]\<rparr>) None None))
          (Document \<lparr>doc_children = [frameA]\<rparr>) None (Some emptyConfig))
     = Inr \<lparr>nodes = [frameA], memoryUsage = 25 / 1048576, nextCursor = None, hasMore = False\<rparr>"
  by (simp add: getFileInfoChunked_def mergeConfig_def streamNodes_unfold seededQueue_def
      client_defs streamLoop.simps processor_defs example_defs)

text \<open>
  C8, amended. Within the lifetime of one processor, that is over calls of
  \<open>getFileInfoChunked\<close> that pass no config, a node id that has been admitted once is
  skipped at every later attempt: \<open>processNode\<close> puts the id of an admitted node into the
  dedup set, rejects any node whose id is in the set, and a call without config keeps the
  id in the set and returns no node with that id. A call that passes a config is the call
  without config on a client that has the merged configuration and a new processor, with
  an empty dedup set and an accumulator of zero.
\<close>

theorem dedup_within_processor_lifetime:
  "(processNode sz p node depth = (Some m, p') \<longrightarrow> node_id node \<in> processedNodes p')
   \<and> (node_id node \<in> processedNodes (nodeProcessor this) \<longrightarrow>
        processNode sz (nodeProcessor this) node depth = (None, nodeProcessor this)
        \<and> (getFileInfoChunked sz this response cursor None = (res, this') \<longrightarrow>
             node_id node \<in> processedNodes (nodeProcessor this')
             \<and> (\<forall>r. res = Inr r \<longrightarrow> node_id node \<notin> node_id ` set (nodes r))))
   \<and> getFileInfoChunked sz this response cursor (Some cfg) =
       getFileInfoChunked sz
         \<lparr>clientConfig = mergeConfig (clientConfig this) cfg,
          nodeProcessor = \<lparr>processedNodes = {}, config = mergeConfig (clientConfig this) cfg,
                           currentSize = 0\<rparr>\<rparr>
         response cursor None"
proof -
  have admitted: "processNode sz p node depth = (Some m, p') \<longrightarrow> node_id node \<in> processedNodes p'"
    by (cases "shouldProcessNode sz p node depth") (auto simp add: processNode_admit processNode_skip)
  have reset: "getFileInfoChunked sz this response cursor (Some cfg) =
       getFileInfoChunked sz
         \<lparr>clientConfig = mergeConfig (clientConfig this) cfg,
          nodeProcessor = \<lparr>processedNodes = {}, config = mergeConfig (clientConfig this) cfg,
                           currentSize = 0\<rparr>\<rparr>
         response cursor None"
    by (simp add: getFileInfoChunked_def newProcessor_def Let_def)
  have later: "processNode sz (nodeProcessor this) node depth = (None, nodeProcessor this)
        \<and> (getFileInfoChunked sz this response cursor None = (res, this') \<longrightarrow>
             node_id node \<in> processedNodes (nodeProcessor this')
             \<and> (\<forall>r. res = Inr r \<longrightarrow> node_id node \<notin> node_id ` set (nodes r)))"
    if seen: "node_id node \<in> processedNodes (nodeProcessor this)"
  proof (rule conjI, goal_cases)
    case 1
    show "processNode sz (nodeProcessor this) node depth = (None, nodeProcessor this)"
      using seen shouldProcessNode_fresh processNode_skip by blast
  next
    case 2
    show "getFileInfoChunked sz this response cursor None = (res, this') \<longrightarrow>
             node_id node \<in> processedNodes (nodeProcessor this')
             \<and> (\<forall>r. res = Inr r \<longrightarrow> node_id node \<notin> node_id ` set (nodes r))"
    proof
    assume call: "getFileInfoChunked sz this response cursor None = (res, this')"
    show "node_id node \<in> processedNodes (nodeProcessor this')
        \<and> (\<forall>r. res = Inr r \<longrightarrow> node_id node \<notin> node_id ` set (nodes r))"
    proof (cases response)
      case (Document document)
      obtain r' q' p' where loop: "streamLoop sz (pageSize (clientConfig this))
          (nodeProcessor this) (seededQueue document cursor) [] = (r', q', p')"
        using prod_cases3 by blast
      from streamLoop_dedup[OF loop] have sub: "processedNodes (nodeProcessor this) \<subseteq> processedNodes p'"
        and new: "node_id ` set r' \<subseteq> processedNodes p' - processedNodes (nodeProcessor this)"
        by auto
      from call Document loop have "this' = this\<lparr>nodeProcessor := p'\<rparr>" and "\<forall>r. res = Inr r \<longrightarrow> nodes r = r'"
        by (auto simp add: getFileInfoChunked_def streamNodes_unfold Let_def)
      with sub new seen show ?thesis by auto
    next
      case (AxiosError msg)
      with call seen show ?thesis by (auto simp add: getFileInfoChunked_def)
    next
      case NoDocument
      with call seen show ?thesis by (auto simp add: getFileInfoChunked_def)
    qed
    qed
  qed
  from admitted later reset show ?thesis by blast
qed

theorem dedup_within_processor_lifetime_witness:
  "node_id frameA \<in> processedNodes (nodeProcessor (snd (getFileInfoChunked exampleBytes
       (newClient emptyConfig) (Document \<lparr>doc_children = [frameA]\<rparr>) None None)))
   \<and> processNode exampleBytes
         (nodeProcessor (snd (getFileInfoChunked exampleBytes (newClient emptyConfig)
            (Document \<lparr>doc_children = [frameA]\<rparr>) None None))) frameA 0
       = (None, nodeProcessor (snd (getFileInfoChunked exampleBytes (newClient emptyConfig)
            (Document \<lparr>doc_children = [frameA]\<rparr>) None None)))"
proof -
  let ?c = "snd (getFileInfoChunked exampleBytes (newClient emptyConfig)
      (Document \<lparr>doc_children = [frameA]\<rparr>) None None)"
  have seen: "node_id frameA \<in> processedNodes (nodeProcessor ?c)"
    by (simp add: getFileInfoChunked_def streamNodes_unfold seededQueue_def
      client_defs streamLoop.simps processor_defs example_defs)
  from dedup_within_processor_lifetime[THEN conjunct2, THEN conjunct1, rule_format, OF seen]
  have "processNode exampleBytes (nodeProcessor ?c) frameA 0 = (None, nodeProcessor ?c)"
    by blast
  with seen show ?thesis by blast
qed

text \<open>
  C9. The skip phase only drops entries of the seeded queue of top-level children: a call
  with a numeric cursor \<open>k\<close> is the cursor-less call on the document without its first \<open>k\<close>
  top-level children, whatever descendants these have. In particular, when \<open>k\<close> is at least
  the number of top-level children the call returns no node, \<open>hasMore = false\<close> and no
  \<open>nextCursor\<close>, and leaves the client as it was.
\<close>

theorem cursor_skip_discards_top_level_only:
  assumes "c \<noteq> []" and "parseInt c = Some k"
  shows "streamNodes sz this document (Some c) =
           streamNodes sz this (document\<lparr>doc_children := drop (nat k) (doc_children document)\<rparr>) None
         \<and> (int (length (doc_children document)) \<le> k \<longrightarrow>
              streamNodes sz this document (Some c) =
                (\<lparr>nodes = [], memoryUsage = currentSize (nodeProcessor this),
                  nextCursor = None, hasMore = False\<rparr>, this))"
proof -
  have q: "seededQueue document (Some c) =
      seededQueue (document\<lparr>doc_children := drop (nat k) (doc_children document)\<rparr>) None"
    using assms by (simp add: seededQueue_def skipLoop_drop drop_map)
  have "seededQueue document (Some c) = []" if "int (length (doc_children document)) \<le> k"
    using assms that by (simp add: seededQueue_def skipLoop_drop)
  then show ?thesis
    using q by (simp add: streamNodes_unfold streamLoop.simps(1) getCurrentSize_def)
qed

theorem cursor_skip_discards_top_level_only_witness:
  "parseInt ''5'' = Some 5
   \<and> streamNodes exampleBytes (newClient emptyConfig) \<lparr>doc_children = [frameWithText]\<rparr> (Some ''5'')
       = (\<lparr>nodes = [], memoryUsage = 0, nextCursor = None, hasMore = False\<rparr>,
          newClient emptyConfig)"
proof -
  have c: "''5'' \<noteq> []" and k: "parseInt ''5'' = Some 5"
    by (simp_all add: parseInt_defs)
  have len: "int (length (doc_children \<lparr>doc_children = [frameWithText]\<rparr>)) \<le> 5"
    by simp
  have cs: "currentSize (nodeProcessor (newClient emptyConfig)) = 0"
    by (simp add: client_defs)
  from cursor_skip_discards_top_level_only[OF c k, THEN conjunct2, rule_format, OF len,
      where sz = exampleBytes and this = "newClient emptyConfig"]
  show ?thesis using k cs by simp
qed

text \<open>
  C10. An iteration of the main loop that skips its node (whichever check rejected it) goes
  on with the node's children at the front of the queue, one level deeper. So the type
  allow-list does not prune subtrees: with \<open>nodeTypes = ["TEXT"]\<close>, the TEXT child of a
  top-level FRAME is admitted and returned although the FRAME itself is not.
\<close>

theorem skipped_node_children_still_visited:
  "(\<not> shouldProcessNode sz p node depth \<and> int (length result) < ps \<and> \<not> hasReachedLimit p \<longrightarrow>
      streamLoop sz ps p ((node, depth) # queue) result =
        streamLoop sz ps p (map (\<lambda>child. (child, depth + 1)) (childrenOrEmpty node) @ queue) result)
   \<and> node_type frameWithText \<notin> set [''TEXT'']
   \<and> textNode \<in> set (childrenOrEmpty frameWithText)
   \<and> nodes (fst (streamNodes exampleBytes (newClient (emptyConfig\<lparr>p_nodeTypes := Some [''TEXT'']\<rparr>))
          \<lparr>doc_children = [frameWithText]\<rparr> None)) = [textNode]"
proof -
  have push: "unshiftChildren node depth queue =
      map (\<lambda>child. (child, depth + 1)) (childrenOrEmpty node) @ queue"
    by (simp add: unshiftChildren_def childrenOrEmpty_def split: option.split)
  have general: "\<not> shouldProcessNode sz p node depth \<and> int (length result) < ps
      \<and> \<not> hasReachedLimit p \<longrightarrow>
      streamLoop sz ps p ((node, depth) # queue) result =
        streamLoop sz ps p (map (\<lambda>child. (child, depth + 1)) (childrenOrEmpty node) @ queue) result"
    by (simp add: streamLoop_skip_step push)
  have example: "nodes (fst (streamNodes exampleBytes
          (newClient (emptyConfig\<lparr>p_nodeTypes := Some [''TEXT'']\<rparr>))
          \<lparr>doc_children = [frameWithText]\<rparr> None)) = [textNode]"
    by (simp add: streamNodes_unfold seededQueue_def client_defs streamLoop.simps processor_defs
        example_defs)
  show ?thesis
    using general example by (simp add: example_defs childrenOrEmpty_def)
qed

theorem skipped_node_children_still_visited_witness:
  "\<not> shouldProcessNode exampleBytes
       (nodeProcessor (newClient (emptyConfig\<lparr>p_nodeTypes := Some [''TEXT'']\<rparr>))) frameWithText 0
   \<and> streamLoop exampleBytes 100
         (nodeProcessor (newClient (emptyConfig\<lparr>p_nodeTypes := Some [''TEXT'']\<rparr>)))
         [(frameWithText, 0)] []
       = streamLoop exampleBytes 100
           (nodeProcessor (newClient (emptyConfig\<lparr>p_nodeTypes := Some [''TEXT'']\<rparr>)))
           [(textNode, 1)] []"
proof -
  let ?p = "nodeProcessor (newClient (emptyConfig\<lparr>p_nodeTypes := Some [''TEXT'']\<rparr>))"
  have skip: "\<not> shouldProcessNode exampleBytes ?p frameWithText 0"
    by (simp add: shouldProcessNode_def client_defs example_defs)
  have room: "int (length ([] :: SceneNode list)) < 100" by simp
  have limit: "\<not> hasReachedLimit ?p"
    by (simp add: hasReachedLimit_def client_defs)
  have kids: "childrenOrEmpty frameWithText = [textNode]"
    by (simp add: childrenOrEmpty_def example_defs)
  from skipped_node_children_still_visited[THEN conjunct1, rule_format,
      of exampleBytes ?p frameWithText 0 "[]" 100 "[]"] skip room limit
  show ?thesis by (simp add: kids)
qed

end
